theory Spec2Isabelle
  imports Complex_Main
begin

section \<open>Numbers and errors\<close>

text \<open>
  The dimensioning engine of \<^verbatim>\<open>app.py\<close> computes on Python floats. They are modelled by
  the real numbers, so that the formulas are checked as formulas. Rounding is modelled
  where a rounded result is turned into an integer that the rounding can change: the
  quotient \<open>surface_total / cell_area\<close> under \<^verbatim>\<open>math.ceil\<close> and the product
  \<open>traffic_demand * 1.5\<close> under \<^verbatim>\<open>int\<close> (the product \<open>traffic_demand * 2\<close> is exact in
  binary floating point). An exception of the source is a value \<open>Inl e\<close> of the result.
\<close>

datatype error = KeyError | ValueError | ZeroDivisionError

text \<open>\<^verbatim>\<open>math.log10\<close> raises \<^verbatim>\<open>ValueError\<close> on a non-positive argument.\<close>

definition log10 :: "real \<Rightarrow> error + real" where
  "log10 x = (if x \<le> 0 then Inl ValueError else Inr (log 10 x))"

text \<open>\<^verbatim>\<open>int(x)\<close> on a float truncates towards zero.\<close>

definition py_int :: "real \<Rightarrow> int" where
  "py_int x = (if 0 \<le> x then \<lfloor>x\<rfloor> else \<lceil>x\<rceil>)"

text \<open>
  The result of one float operation on the exact result \<open>x\<close>: the nearest number with a
  significand of 53 bits, a tie going to the even significand (the rounding of IEEE 754
  doubles). \<open>u\<close> is the distance between neighbouring doubles in the binade of \<open>x\<close>. The
  exponent range of doubles (overflow to infinity, subnormal numbers) is not modelled.
\<close>

definition round_even :: "real \<Rightarrow> int" where
  "round_even y =
     (if y - of_int \<lfloor>y\<rfloor> = 1 / 2
      then (if even \<lfloor>y\<rfloor> then \<lfloor>y\<rfloor> else \<lfloor>y\<rfloor> + 1)
      else \<lfloor>y + 1 / 2\<rfloor>)"

definition float_round :: "real \<Rightarrow> real" where
  "float_round x =
     (if x = 0 then 0
      else (let u = 2 powr (of_int \<lfloor>log 2 \<bar>x\<bar>\<rfloor> - 52)
            in of_int (round_even (x / u)) * u))"

section \<open>The technology table\<close>

record tech_params =
  name :: string
  frequency_bands :: "(string \<times> real) list"
  channel_spacing :: real
  tx_power_max :: real
  rx_sensitivity :: real
  noise_figure :: real
  fade_margin :: real
  interference_margin :: real
  body_loss :: real
  cost_per_bts :: real
  cost_per_channel :: real

definition GSM_params :: tech_params where
  "GSM_params = \<lparr> name = ''GSM (2G)'',
     frequency_bands = [(''900'', 900), (''1800'', 1800)],
     channel_spacing = 0.2, tx_power_max = 43, rx_sensitivity = - 104,
     noise_figure = 5, fade_margin = 10, interference_margin = 3, body_loss = 3,
     cost_per_bts = 50000, cost_per_channel = 2000 \<rparr>"

definition UMTS_params :: tech_params where
  "UMTS_params = \<lparr> name = ''UMTS (3G)'',
     frequency_bands = [(''2100'', 2100), (''900'', 900)],
     channel_spacing = 5, tx_power_max = 43, rx_sensitivity = - 117,
     noise_figure = 7, fade_margin = 12, interference_margin = 5, body_loss = 3,
     cost_per_bts = 80000, cost_per_channel = 5000 \<rparr>"

definition LTE_params :: tech_params where
  "LTE_params = \<lparr> name = ''LTE (4G)'',
     frequency_bands = [(''800'', 800), (''1800'', 1800), (''2600'', 2600)],
     channel_spacing = 20, tx_power_max = 46, rx_sensitivity = - 120,
     noise_figure = 6, fade_margin = 8, interference_margin = 4, body_loss = 3,
     cost_per_bts = 120000, cost_per_channel = 8000 \<rparr>"

definition TELECOM_TECHNOLOGIES :: "string \<rightharpoonup> tech_params" where
  "TELECOM_TECHNOLOGIES =
     map_of [(''GSM'', GSM_params), (''UMTS'', UMTS_params), (''LTE'', LTE_params)]"

section \<open>Propagation models\<close>

text \<open>
  \<^verbatim>\<open>okumura_hata_path_loss\<close>: the correction \<open>ahm\<close> first, then the base loss (whose
  logarithms are taken in the order frequency, hb, distance), then the correction of the
  environment. Every call of \<^verbatim>\<open>math.log10\<close> can raise.
\<close>

definition okumura_hata_path_loss ::
  "real \<Rightarrow> real \<Rightarrow> real \<Rightarrow> real \<Rightarrow> string \<Rightarrow> error + real" where
  "okumura_hata_path_loss frequency distance hb hm environment =
     (case (if frequency \<ge> 150 \<and> frequency \<le> 1500
            then (case log10 frequency of Inl e \<Rightarrow> Inl e
                  | Inr lf \<Rightarrow> Inr ((1.1 * lf - 0.7) * hm - (1.56 * lf - 0.8)))
            else (case log10 (11.75 * hm) of Inl e \<Rightarrow> Inl e
                  | Inr lh \<Rightarrow> Inr (3.2 * lh\<^sup>2 - 4.97)))
      of Inl e \<Rightarrow> Inl e
       | Inr ahm \<Rightarrow>
      (case log10 frequency of Inl e \<Rightarrow> Inl e | Inr lf \<Rightarrow>
      (case log10 hb of Inl e \<Rightarrow> Inl e | Inr lb \<Rightarrow>
      (case log10 distance of Inl e \<Rightarrow> Inl e | Inr ld \<Rightarrow>
        (let path_loss = 69.55 + 26.16 * lf - 13.82 * lb - ahm + (44.9 - 6.55 * lb) * ld
         in if environment = ''suburban''
            then (case log10 (frequency / 28) of Inl e \<Rightarrow> Inl e
                  | Inr l28 \<Rightarrow> Inr (path_loss - 2 * l28\<^sup>2 - 5.4))
            else if environment = ''rural''
            then Inr (path_loss - 4.78 * lf\<^sup>2 + 18.33 * lf - 40.94)
            else Inr path_loss)))))"

definition free_space_path_loss :: "real \<Rightarrow> real \<Rightarrow> error + real" where
  "free_space_path_loss frequency distance =
     (case log10 frequency of Inl e \<Rightarrow> Inl e | Inr lf \<Rightarrow>
     (case log10 distance of Inl e \<Rightarrow> Inl e | Inr ld \<Rightarrow>
        Inr (32.45 + 20 * lf + 20 * ld)))"

section \<open>Link budget\<close>

text \<open>
  The dictionary returned by \<^verbatim>\<open>link_budget_calculation\<close>; its keys carry the prefix
  \<open>lb_\<close>, since several of them are also keys of a technology profile.
\<close>

record link_budget_result =
  lb_tx_power :: real
  lb_rx_sensitivity :: real
  lb_path_loss :: real
  lb_fade_margin :: real
  lb_interference_margin :: real
  lb_body_loss :: real
  lb_tx_antenna_gain :: real
  lb_rx_antenna_gain :: real
  lb_received_power :: real
  lb_link_margin :: real
  lb_link_feasible :: bool

definition link_budget_calculation ::
  "tech_params \<Rightarrow> real \<Rightarrow> real \<Rightarrow> real \<Rightarrow> real \<Rightarrow> string \<Rightarrow> error + link_budget_result" where
  "link_budget_calculation tech_params frequency distance hb hm environment =
     (let tx_power = tx_power_max tech_params;
          rx_sens = rx_sensitivity tech_params
      in case (if environment = ''free_space''
               then free_space_path_loss frequency distance
               else okumura_hata_path_loss frequency distance hb hm environment)
         of Inl e \<Rightarrow> Inl e
          | Inr path_loss \<Rightarrow>
             (let fade = fade_margin tech_params;
                  interference = interference_margin tech_params;
                  body = body_loss tech_params;
                  tx_antenna_gain = 18;
                  rx_antenna_gain = 0;
                  received_power = (tx_power + tx_antenna_gain + rx_antenna_gain
                                    - path_loss - fade - interference - body);
                  link_margin = received_power - rx_sens
              in Inr \<lparr> lb_tx_power = tx_power,
                       lb_rx_sensitivity = rx_sens,
                       lb_path_loss = path_loss,
                       lb_fade_margin = fade,
                       lb_interference_margin = interference,
                       lb_body_loss = body,
                       lb_tx_antenna_gain = tx_antenna_gain,
                       lb_rx_antenna_gain = rx_antenna_gain,
                       lb_received_power = received_power,
                       lb_link_margin = link_margin,
                       lb_link_feasible = (link_margin > 0) \<rparr>))"

section \<open>Cell radius by bisection\<close>

definition tolerance :: real where
  "tolerance = 0.01"

text \<open>
  The body of the \<^verbatim>\<open>while\<close> loop of \<^verbatim>\<open>calculate_cell_radius\<close>, on the bracket
  \<open>(min_radius, max_radius)\<close>: one link budget at the midpoint, which replaces the lower
  end when the link is feasible and the upper end otherwise.
\<close>

definition cell_radius_step ::
  "tech_params \<Rightarrow> real \<Rightarrow> string \<Rightarrow> real \<Rightarrow> real \<Rightarrow> real \<times> real \<Rightarrow> error + real \<times> real" where
  "cell_radius_step tech_params frequency environment hb hm bracket =
     (case bracket of (min_radius, max_radius) \<Rightarrow>
        (let test_radius = (min_radius + max_radius) / 2
         in case link_budget_calculation tech_params frequency test_radius hb hm environment
            of Inl e \<Rightarrow> Inl e
             | Inr link_budget \<Rightarrow>
                 if lb_link_feasible link_budget
                 then Inr (test_radius, max_radius)
                 else Inr (min_radius, test_radius)))"

lemma cell_radius_step_width:
  assumes "cell_radius_step p f env hb hm (lo, hi) = Inr (lo', hi')"
  shows "hi' - lo' = (hi - lo) / 2"
  using assms
  by (auto simp: cell_radius_step_def Let_def field_simps split: sum.splits if_splits)

lemma halving_measure:
  fixes w :: real
  assumes "tolerance < w"
  shows "nat \<lceil>w / 2 / tolerance\<rceil> < nat \<lceil>w / tolerance\<rceil>"
proof -
  have t: "0 < tolerance" by (simp add: tolerance_def)
  define x where "x = w / tolerance"
  have x1: "1 < x" using assms t by (simp add: x_def)
  have "\<lceil>x / 2\<rceil> < \<lceil>x\<rceil>"
  proof -
    have "2 \<le> \<lceil>x\<rceil>" using x1 by linarith
    moreover have "x / 2 \<le> of_int \<lceil>x\<rceil> / 2" by simp
    moreover have "of_int \<lceil>x\<rceil> / 2 \<le> (of_int (\<lceil>x\<rceil> - 1) :: real)"
      using \<open>2 \<le> \<lceil>x\<rceil>\<close> by simp
    ultimately have "x / 2 \<le> of_int (\<lceil>x\<rceil> - 1)" by linarith
    then have "\<lceil>x / 2\<rceil> \<le> \<lceil>x\<rceil> - 1" by (simp only: ceiling_le_iff)
    then show ?thesis by simp
  qed
  moreover have "0 < \<lceil>x\<rceil>" using x1 by linarith
  ultimately have "nat \<lceil>x / 2\<rceil> < nat \<lceil>x\<rceil>" by linarith
  moreover have "w / 2 / tolerance = x / 2" by (simp add: x_def)
  ultimately show ?thesis by (simp only: x_def)
qed

text \<open>The loop itself: it runs while the bracket is wider than the tolerance.\<close>

function cell_radius_loop ::
  "tech_params \<Rightarrow> real \<Rightarrow> string \<Rightarrow> real \<Rightarrow> real \<Rightarrow> real \<Rightarrow> real \<Rightarrow> error + real" where
  "cell_radius_loop tech_params frequency environment hb hm min_radius max_radius =
     (if max_radius - min_radius > tolerance
      then (case cell_radius_step tech_params frequency environment hb hm (min_radius, max_radius)
            of Inl e \<Rightarrow> Inl e
             | Inr (lo, hi) \<Rightarrow> cell_radius_loop tech_params frequency environment hb hm lo hi)
      else Inr min_radius)"
  by pat_completeness auto
termination
proof (relation "measure (\<lambda>(p, f, env, hb, hm, lo, hi). nat \<lceil>(hi - lo) / tolerance\<rceil>)", goal_cases)
  case 1
  show ?case by simp
next
  case (2 p f env hb hm lo hi x lo' hi')
  then have w: "hi' - lo' = (hi - lo) / 2"
    using cell_radius_step_width[of p f env hb hm lo hi lo' hi'] by simp
  have "nat \<lceil>(hi' - lo') / tolerance\<rceil> < nat \<lceil>(hi - lo) / tolerance\<rceil>"
    using halving_measure[of "hi - lo"] 2(1) by (simp only: w)
  then show ?case by simp
qed

definition calculate_cell_radius ::
  "tech_params \<Rightarrow> real \<Rightarrow> string \<Rightarrow> real \<Rightarrow> real \<Rightarrow> error + real" where
  "calculate_cell_radius tech_params frequency environment hb hm =
     cell_radius_loop tech_params frequency environment hb hm 0.1 50"


section \<open>Dimensioning\<close>

text \<open>
  The dictionary returned by \<^verbatim>\<open>calculate_advanced_dimensioning\<close>, its keys prefixed
  with \<open>dim_\<close>. \<^verbatim>\<open>math.ceil\<close> and \<^verbatim>\<open>int\<close> give integers; a product with a float is a
  float.
\<close>

record dimensioning_result =
  dim_technology :: string
  dim_frequency :: real
  dim_environment :: string
  dim_max_radius :: real
  dim_optimal_radius :: real
  dim_cell_area :: real
  dim_num_cells :: int
  dim_cluster_size :: int
  dim_reuse_distance :: real
  dim_capacity_per_cell :: real
  dim_total_capacity :: real
  dim_channels_per_cell :: int
  dim_cost_infrastructure :: real
  dim_cost_equipment :: real
  dim_total_cost :: real
  dim_link_budget :: link_budget_result
  dim_qos_score :: real

text \<open>
  The steps in the order of the source: the lookup in the table (\<^verbatim>\<open>KeyError\<close>), the
  bisection, the derated radius, the area of the cell, the division by that area
  (\<^verbatim>\<open>ZeroDivisionError\<close> when it is zero; \<^verbatim>\<open>math.ceil\<close> is applied to the rounded
  quotient), the capacity by technology, the costs, the
  link budget at the optimal radius, the cluster size and the reuse distance.
  \<open>channels_per_cell\<close> is assigned in the GSM branch only and read only when the
  technology is GSM; for the other technologies the key \<open>channels_per_cell\<close> of the result
  holds the capacity, which is an integer there.
\<close>

definition calculate_advanced_dimensioning ::
  "real \<Rightarrow> string \<Rightarrow> real \<Rightarrow> string \<Rightarrow> real \<Rightarrow> real \<Rightarrow> real \<Rightarrow> real
     \<Rightarrow> error + dimensioning_result" where
  "calculate_advanced_dimensioning surface_total technology frequency environment
       traffic_demand qos_requirements hb hm =
     (case TELECOM_TECHNOLOGIES technology of
        None \<Rightarrow> Inl KeyError
      | Some tech_params \<Rightarrow>
     (case calculate_cell_radius tech_params frequency environment hb hm of
        Inl e \<Rightarrow> Inl e
      | Inr max_radius \<Rightarrow>
       (let traffic_factor = min 1 (traffic_demand / 100);
            qos_factor = qos_requirements / 100;
            optimal_radius = max_radius * (1 - 0.3 * traffic_factor) * qos_factor;
            cell_area = (3 * sqrt 3 / 2) * optimal_radius\<^sup>2
        in if cell_area = 0 then Inl ZeroDivisionError
           else
          (let num_cells = \<lceil>float_round (surface_total / cell_area)\<rceil>;
               channels_per_cell = min 8 (max 1 (py_int (traffic_demand / 10)));
               capacity_int = (if technology = ''UMTS''
                               then min 64 (py_int (float_round (traffic_demand * 1.5)))
                               else min 200 (py_int (traffic_demand * 2)));
               capacity_per_cell = (if technology = ''GSM''
                                    then of_int channels_per_cell * 0.9
                                    else of_int capacity_int);
               total_capacity = of_int num_cells * capacity_per_cell;
               cost_infrastructure = of_int num_cells * cost_per_bts tech_params;
               cost_equipment = (if technology = ''GSM''
                    then of_int num_cells * of_int channels_per_cell * cost_per_channel tech_params
                    else of_int num_cells * cost_per_channel tech_params);
               total_cost = cost_infrastructure + cost_equipment
           in case link_budget_calculation tech_params frequency optimal_radius hb hm environment
              of Inl e \<Rightarrow> Inl e
               | Inr link_budget \<Rightarrow>
                (let cluster_size = (if technology = ''GSM''
                                     then (if qos_requirements > 80 then 7 else 4)
                                     else 1);
                     reuse_distance = optimal_radius * sqrt (3 * of_int cluster_size)
                 in Inr \<lparr> dim_technology = name tech_params,
                          dim_frequency = frequency,
                          dim_environment = environment,
                          dim_max_radius = max_radius,
                          dim_optimal_radius = optimal_radius,
                          dim_cell_area = cell_area,
                          dim_num_cells = num_cells,
                          dim_cluster_size = cluster_size,
                          dim_reuse_distance = reuse_distance,
                          dim_capacity_per_cell = capacity_per_cell,
                          dim_total_capacity = total_capacity,
                          dim_channels_per_cell = (if technology = ''GSM''
                                                   then channels_per_cell else capacity_int),
                          dim_cost_infrastructure = cost_infrastructure,
                          dim_cost_equipment = cost_equipment,
                          dim_total_cost = total_cost,
                          dim_link_budget = link_budget,
                          dim_qos_score = min 100 (qos_requirements * (1 - traffic_factor * 0.3))
                        \<rparr>)))))"

section \<open>The Okumura-Hata formula as the specification writes it\<close>

text \<open>
  The correction for the height of the mobile antenna and the base urban loss, as closed
  formulas over the logarithm of HOL; the function of the source is compared with them.
\<close>

definition hata_mobile_correction :: "real \<Rightarrow> real \<Rightarrow> real" where
  "hata_mobile_correction f hm =
     (if 150 \<le> f \<and> f \<le> 1500
      then (1.1 * log 10 f - 0.7) * hm - (1.56 * log 10 f - 0.8)
      else 3.2 * (log 10 (11.75 * hm))\<^sup>2 - 4.97)"

definition hata_urban :: "real \<Rightarrow> real \<Rightarrow> real \<Rightarrow> real \<Rightarrow> real" where
  "hata_urban f d hb hm =
     69.55 + 26.16 * log 10 f - 13.82 * log 10 hb - hata_mobile_correction f hm
       + (44.9 - 6.55 * log 10 hb) * log 10 d"

section \<open>Feasibility of a distance\<close>

text \<open>
  A distance is feasible when the link budget at that distance returns a result whose
  flag is true, infeasible when it returns a result whose flag is false (neither when the
  link budget raises). Feasibility is monotone when, on positive distances, a feasible
  distance makes every shorter one feasible.
\<close>

definition feasible_at :: "tech_params \<Rightarrow> real \<Rightarrow> string \<Rightarrow> real \<Rightarrow> real \<Rightarrow> real \<Rightarrow> bool" where
  "feasible_at p f env hb hm d =
     (case link_budget_calculation p f d hb hm env of
        Inl e \<Rightarrow> False | Inr lb \<Rightarrow> lb_link_feasible lb)"

definition infeasible_at :: "tech_params \<Rightarrow> real \<Rightarrow> string \<Rightarrow> real \<Rightarrow> real \<Rightarrow> real \<Rightarrow> bool" where
  "infeasible_at p f env hb hm d =
     (case link_budget_calculation p f d hb hm env of
        Inl e \<Rightarrow> False | Inr lb \<Rightarrow> \<not> lb_link_feasible lb)"

definition feasibility_monotone :: "tech_params \<Rightarrow> real \<Rightarrow> string \<Rightarrow> real \<Rightarrow> real \<Rightarrow> bool" where
  "feasibility_monotone p f env hb hm =
     (\<forall>d1 d2. 0 < d1 \<and> d1 \<le> d2 \<and> feasible_at p f env hb hm d2 \<longrightarrow> feasible_at p f env hb hm d1)"

section \<open>Propagation: values and domain errors\<close>

lemma log10_pos: "0 < x \<Longrightarrow> log10 x = Inr (log 10 x)"
  by (simp add: log10_def)

lemma log10_nonpos: "x \<le> 0 \<Longrightarrow> log10 x = Inl ValueError"
  by (simp add: log10_def)

lemma free_space_pos:
  "0 < f \<Longrightarrow> 0 < d \<Longrightarrow> free_space_path_loss f d = Inr (32.45 + 20 * log 10 f + 20 * log 10 d)"
  by (simp add: free_space_path_loss_def log10_pos)

lemma free_space_nonpos:
  "f \<le> 0 \<or> d \<le> 0 \<Longrightarrow> free_space_path_loss f d = Inl ValueError"
  by (auto simp: free_space_path_loss_def log10_def)

lemma okumura_hata_pos:
  assumes "0 < f" "0 < d" "0 < hb" "0 < hm \<or> (150 \<le> f \<and> f \<le> 1500)"
  shows "okumura_hata_path_loss f d hb hm env =
     Inr (if env = ''suburban'' then hata_urban f d hb hm - 2 * (log 10 (f / 28))\<^sup>2 - 5.4
          else if env = ''rural''
          then hata_urban f d hb hm - 4.78 * (log 10 f)\<^sup>2 + 18.33 * log 10 f - 40.94
          else hata_urban f d hb hm)"
  using assms
  by (auto simp: okumura_hata_path_loss_def log10_pos Let_def hata_urban_def
      hata_mobile_correction_def)

lemma okumura_hata_nonpos:
  assumes "f \<le> 0 \<or> d \<le> 0 \<or> hb \<le> 0 \<or> (hm \<le> 0 \<and> \<not> (150 \<le> f \<and> f \<le> 1500))"
  shows "okumura_hata_path_loss f d hb hm env = Inl ValueError"
  using assms
  by (auto simp: okumura_hata_path_loss_def log10_def Let_def mult_le_0_iff split: sum.splits)

text \<open>
  C4. For strictly positive frequency, distance and antenna heights the Okumura-Hata
  function returns the base urban loss
  \<open>69.55 + 26.16 log f - 13.82 log hb - a(hm) + (44.9 - 6.55 log hb) log d\<close> for
  \<open>urban\<close>, that value minus \<open>2 (log (f/28))\<^sup>2 + 5.4\<close> for \<open>suburban\<close>, and that value
  minus \<open>4.78 (log f)\<^sup>2 - 18.33 log f + 40.94\<close> for \<open>rural\<close>; the correction \<open>a(hm)\<close> is
  the formula of the band 150 to 1500 MHz exactly when the frequency lies in it, and the
  other formula otherwise.
\<close>

theorem okumura_hata_formula:
  assumes "0 < f" "0 < d" "0 < hb" "0 < hm"
  shows "okumura_hata_path_loss f d hb hm ''urban'' = Inr (hata_urban f d hb hm)
       \<and> okumura_hata_path_loss f d hb hm ''suburban''
           = Inr (hata_urban f d hb hm - (2 * (log 10 (f / 28))\<^sup>2 + 5.4))
       \<and> okumura_hata_path_loss f d hb hm ''rural''
           = Inr (hata_urban f d hb hm - (4.78 * (log 10 f)\<^sup>2 - 18.33 * log 10 f + 40.94))
       \<and> hata_urban f d hb hm
           = 69.55 + 26.16 * log 10 f - 13.82 * log 10 hb - hata_mobile_correction f hm
             + (44.9 - 6.55 * log 10 hb) * log 10 d
       \<and> hata_mobile_correction f hm
           = (if 150 \<le> f \<and> f \<le> 1500
              then (1.1 * log 10 f - 0.7) * hm - (1.56 * log 10 f - 0.8)
              else 3.2 * (log 10 (11.75 * hm))\<^sup>2 - 4.97)"
  using assms by (simp add: okumura_hata_pos hata_urban_def hata_mobile_correction_def)

text \<open>The reference point of the specification: 900 MHz, 10 km, 30 m, 1.5 m, urban.\<close>

theorem okumura_hata_formula_witness:
  "okumura_hata_path_loss 900 10 30 1.5 ''urban''
     = Inr (69.55 + 26.16 * log 10 900 - 13.82 * log 10 30
            - ((1.1 * log 10 900 - 0.7) * 1.5 - (1.56 * log 10 900 - 0.8))
            + (44.9 - 6.55 * log 10 30))"
  using okumura_hata_formula[of 900 10 30 "1.5"]
  by (simp add: hata_urban_def hata_mobile_correction_def)

text \<open>
  C8, as the code has it. The errors come from \<^verbatim>\<open>math.log10\<close> alone. The free-space
  function raises for a non-positive frequency or distance and returns otherwise. The
  Okumura-Hata function raises for a non-positive frequency, distance or base-station
  height; a non-positive mobile height raises only outside the band 150 to 1500 MHz,
  where its logarithm is taken. Inside the band the mobile height enters linearly, and
  the function returns a value whatever its sign.
\<close>

theorem log_domain_errors:
  "(f \<le> 0 \<or> d \<le> 0 \<longrightarrow> free_space_path_loss f d = Inl ValueError)
 \<and> (0 < f \<and> 0 < d \<longrightarrow> (\<exists>v. free_space_path_loss f d = Inr v))
 \<and> (f \<le> 0 \<or> d \<le> 0 \<or> hb \<le> 0 \<or> (hm \<le> 0 \<and> \<not> (150 \<le> f \<and> f \<le> 1500))
       \<longrightarrow> okumura_hata_path_loss f d hb hm env = Inl ValueError)
 \<and> (0 < f \<and> 0 < d \<and> 0 < hb \<and> (0 < hm \<or> (150 \<le> f \<and> f \<le> 1500))
       \<longrightarrow> (\<exists>v. okumura_hata_path_loss f d hb hm env = Inr v))"
  using free_space_nonpos[of f d] free_space_pos[of f d]
    okumura_hata_nonpos[of f d hb hm env] okumura_hata_pos[of f d hb hm env]
  by blast

text \<open>
  A witness at four inputs: a zero frequency in free space, the reference point, a zero
  mobile height at 2600 MHz (an error) and a zero mobile height at 900 MHz (a value).
\<close>

theorem log_domain_errors_witness:
  "free_space_path_loss 0 1 = Inl ValueError
 \<and> (\<exists>v. free_space_path_loss 900 10 = Inr v)
 \<and> okumura_hata_path_loss 2600 1 30 0 ''urban'' = Inl ValueError
 \<and> (\<exists>v. okumura_hata_path_loss 900 10 30 0 ''rural'' = Inr v)"
  using log_domain_errors[of 0 1 30 "1.5" "''urban''"]
    log_domain_errors[of 900 10 30 0 "''rural''"]
    log_domain_errors[of 2600 1 30 0 "''urban''"]
  by simp

text \<open>
  C8 as stated fails: with a mobile height of zero at 900 MHz the Okumura-Hata function
  raises nothing and returns a loss.
\<close>

theorem okumura_hata_zero_height_counterexample:
  "okumura_hata_path_loss 900 1 30 0 ''urban''
     = Inr (69.55 + 26.16 * log 10 900 - 13.82 * log 10 30 + (1.56 * log 10 900 - 0.8))"
  by (simp add: okumura_hata_path_loss_def log10_def)

section \<open>The technology lookup\<close>

lemma lookup_Some:
  "TELECOM_TECHNOLOGIES t = Some p \<longleftrightarrow>
     (t = ''GSM'' \<and> p = GSM_params) \<or> (t = ''UMTS'' \<and> p = UMTS_params)
     \<or> (t = ''LTE'' \<and> p = LTE_params)"
  by (auto simp: TELECOM_TECHNOLOGIES_def)

lemma lookup_None: "TELECOM_TECHNOLOGIES t = None \<longleftrightarrow> t \<notin> {''GSM'', ''UMTS'', ''LTE''}"
  by (auto simp: TELECOM_TECHNOLOGIES_def)

text \<open>
  C7. A technology key outside GSM, UMTS and LTE makes the dimensioning fail with
  \<^verbatim>\<open>KeyError\<close>, whatever the other arguments are (so before the radius search, which
  could raise on them, and before any capacity is computed); for each of the three keys
  the lookup in the table succeeds.
\<close>

theorem unknown_technology_KeyError:
  "(technology \<notin> {''GSM'', ''UMTS'', ''LTE''} \<longrightarrow>
      calculate_advanced_dimensioning surface_total technology frequency environment
        traffic_demand qos_requirements hb hm = Inl KeyError)
 \<and> (technology \<in> {''GSM'', ''UMTS'', ''LTE''} \<longrightarrow>
      (\<exists>p. TELECOM_TECHNOLOGIES technology = Some p))"
proof (intro conjI impI)
  assume "technology \<notin> {''GSM'', ''UMTS'', ''LTE''}"
  then have "TELECOM_TECHNOLOGIES technology = None"
    using lookup_None[of technology] by blast
  then show "calculate_advanced_dimensioning surface_total technology frequency environment
        traffic_demand qos_requirements hb hm = Inl KeyError"
    by (simp add: calculate_advanced_dimensioning_def)
next
  assume "technology \<in> {''GSM'', ''UMTS'', ''LTE''}"
  then have "TELECOM_TECHNOLOGIES technology \<noteq> None"
    using lookup_None[of technology] by blast
  then show "\<exists>p. TELECOM_TECHNOLOGIES technology = Some p" by blast
qed

text \<open>
  An unknown key with a zero frequency, on which the radius search would raise
  \<^verbatim>\<open>ValueError\<close>: the error is the lookup's.
\<close>

theorem unknown_technology_KeyError_witness:
  "calculate_advanced_dimensioning 100 ''WiMAX'' 0 ''urban'' 50 90 30 1.5 = Inl KeyError
 \<and> TELECOM_TECHNOLOGIES ''LTE'' = Some LTE_params"
  using unknown_technology_KeyError[of "''WiMAX''" 100 0 "''urban''" 50 90 30 "1.5"]
    unknown_technology_KeyError[of "''LTE''"]
  by (auto simp: lookup_Some)

section \<open>The link budget\<close>

text \<open>
  C3. The link budget returns a result for all strictly positive frequency, distance and
  antenna heights, and every result it returns has the fixed antenna gains 18 and 0,
  \<open>received_power = tx_power + 18 + 0 - path_loss - fade_margin - interference_margin -
  body_loss\<close>, \<open>link_margin = received_power - rx_sensitivity\<close>, a feasibility flag that is
  true exactly when the link margin is positive, and a path loss that is the free-space
  loss exactly when the environment is \<open>free_space\<close> and the Okumura-Hata loss otherwise.
\<close>

theorem link_budget_result_shape:
  "(0 < f \<and> 0 < d \<and> 0 < hb \<and> 0 < hm \<longrightarrow>
      (\<exists>r. link_budget_calculation p f d hb hm env = Inr r))
 \<and> (\<forall>r. link_budget_calculation p f d hb hm env = Inr r \<longrightarrow>
      lb_tx_antenna_gain r = 18 \<and> lb_rx_antenna_gain r = 0
    \<and> lb_received_power r = tx_power_max p + 18 + 0 - lb_path_loss r - fade_margin p
          - interference_margin p - body_loss p
    \<and> lb_link_margin r = lb_received_power r - rx_sensitivity p
    \<and> (lb_link_feasible r \<longleftrightarrow> lb_link_margin r > 0)
    \<and> (env = ''free_space'' \<longrightarrow> free_space_path_loss f d = Inr (lb_path_loss r))
    \<and> (env \<noteq> ''free_space'' \<longrightarrow> okumura_hata_path_loss f d hb hm env = Inr (lb_path_loss r)))"
proof (intro conjI impI allI)
  assume "0 < f \<and> 0 < d \<and> 0 < hb \<and> 0 < hm"
  then show "\<exists>r. link_budget_calculation p f d hb hm env = Inr r"
    by (simp add: link_budget_calculation_def Let_def free_space_pos okumura_hata_pos)
qed (auto simp: link_budget_calculation_def Let_def split: sum.splits if_splits)

text \<open>
  The LTE profile at 1800 MHz and 1 km in an urban environment, and the GSM profile at
  900 MHz and 10 km in free space.
\<close>

theorem link_budget_result_shape_witness:
  "(\<exists>r. link_budget_calculation LTE_params 1800 1 30 1.5 ''urban'' = Inr r
      \<and> lb_received_power r = 46 + 18 + 0 - lb_path_loss r - 8 - 4 - 3
      \<and> lb_link_margin r = lb_received_power r - (- 120)
      \<and> lb_link_feasible r = (lb_link_margin r > 0)
      \<and> okumura_hata_path_loss 1800 1 30 1.5 ''urban'' = Inr (lb_path_loss r))
 \<and> (\<exists>r. link_budget_calculation GSM_params 900 10 30 1.5 ''free_space'' = Inr r
      \<and> lb_received_power r = 43 + 18 + 0 - lb_path_loss r - 10 - 3 - 3
      \<and> lb_link_margin r = lb_received_power r - (- 104)
      \<and> lb_link_feasible r = (lb_link_margin r > 0)
      \<and> free_space_path_loss 900 10 = Inr (lb_path_loss r))"
proof (rule conjI)
  note shape = link_budget_result_shape[where f = 1800 and d = 1 and hb = 30 and hm = "1.5"
      and p = LTE_params and env = "''urban''"]
  from shape obtain r where r: "link_budget_calculation LTE_params 1800 1 30 1.5 ''urban'' = Inr r"
    by auto
  with shape show "\<exists>r. link_budget_calculation LTE_params 1800 1 30 1.5 ''urban'' = Inr r
      \<and> lb_received_power r = 46 + 18 + 0 - lb_path_loss r - 8 - 4 - 3
      \<and> lb_link_margin r = lb_received_power r - (- 120)
      \<and> lb_link_feasible r = (lb_link_margin r > 0)
      \<and> okumura_hata_path_loss 1800 1 30 1.5 ''urban'' = Inr (lb_path_loss r)"
    by (simp add: LTE_params_def)
next
  note shape = link_budget_result_shape[where f = 900 and d = 10 and hb = 30 and hm = "1.5"
      and p = GSM_params and env = "''free_space''"]
  from shape obtain r
    where r: "link_budget_calculation GSM_params 900 10 30 1.5 ''free_space'' = Inr r"
    by auto
  with shape show "\<exists>r. link_budget_calculation GSM_params 900 10 30 1.5 ''free_space'' = Inr r
      \<and> lb_received_power r = 43 + 18 + 0 - lb_path_loss r - 10 - 3 - 3
      \<and> lb_link_margin r = lb_received_power r - (- 104)
      \<and> lb_link_feasible r = (lb_link_margin r > 0)
      \<and> free_space_path_loss 900 10 = Inr (lb_path_loss r)"
    by (simp add: GSM_params_def)
qed

section \<open>The bisection: bracket, iterations, totality\<close>

lemma cell_radius_step_cases:
  assumes "cell_radius_step p f env hb hm (lo, hi) = Inr (lo', hi')"
  shows "(lo' = (lo + hi) / 2 \<and> hi' = hi \<and> feasible_at p f env hb hm lo')
       \<or> (lo' = lo \<and> hi' = (lo + hi) / 2 \<and> infeasible_at p f env hb hm hi')"
  using assms
  by (auto simp: cell_radius_step_def Let_def feasible_at_def infeasible_at_def
      split: sum.splits if_splits)

lemma cell_radius_step_feasible:
  "feasible_at p f env hb hm ((lo + hi) / 2) \<Longrightarrow>
     cell_radius_step p f env hb hm (lo, hi) = Inr ((lo + hi) / 2, hi)"
  by (auto simp: cell_radius_step_def Let_def feasible_at_def split: sum.splits)

lemma cell_radius_step_infeasible:
  "infeasible_at p f env hb hm ((lo + hi) / 2) \<Longrightarrow>
     cell_radius_step p f env hb hm (lo, hi) = Inr (lo, (lo + hi) / 2)"
  by (auto simp: cell_radius_step_def Let_def infeasible_at_def split: sum.splits)

lemma cell_radius_loop_bracket:
  "cell_radius_loop p f env hb hm lo hi = Inr r \<Longrightarrow> lo \<le> hi \<Longrightarrow>
     lo \<le> r \<and> r \<le> hi \<and> (r = lo \<or> feasible_at p f env hb hm r)
     \<and> (\<exists>h. r \<le> h \<and> h \<le> hi \<and> h - r \<le> tolerance \<and> (h = hi \<or> infeasible_at p f env hb hm h))"
proof (induction p f env hb hm lo hi rule: cell_radius_loop.induct)
  case (1 p f env hb hm lo hi)
  show ?case
  proof (cases "hi - lo > tolerance")
    case False
    with "1.prems" have "r = lo" by simp
    with False "1.prems" show ?thesis by auto
  next
    case True
    with "1.prems" obtain lo' hi'
      where st: "cell_radius_step p f env hb hm (lo, hi) = Inr (lo', hi')"
        and rec: "cell_radius_loop p f env hb hm lo' hi' = Inr r"
      by (auto split: sum.splits)
    have t: "0 < tolerance" by (simp add: tolerance_def)
    from cell_radius_step_cases[OF st] True t
    have ord: "lo \<le> lo'" "lo' \<le> hi'" "hi' \<le> hi" by auto
    from "1.IH"[OF True st refl rec ord(2)]
    have ih: "lo' \<le> r" "r \<le> hi'" "r = lo' \<or> feasible_at p f env hb hm r"
      "\<exists>h. r \<le> h \<and> h \<le> hi' \<and> h - r \<le> tolerance \<and> (h = hi' \<or> infeasible_at p f env hb hm h)"
      by auto
    from ih(4) obtain h where h: "r \<le> h" "h \<le> hi'" "h - r \<le> tolerance"
      "h = hi' \<or> infeasible_at p f env hb hm h" by blast
    have a: "r = lo \<or> feasible_at p f env hb hm r"
      using ih(3) cell_radius_step_cases[OF st] by auto
    have b: "h = hi \<or> infeasible_at p f env hb hm h"
      using h(4) cell_radius_step_cases[OF st] by auto
    from ih(1,2) ord h(1,2,3) a b show ?thesis by (intro conjI exI[of _ h]) auto
  qed
qed



lemma link_budget_Inr_D:
  assumes "link_budget_calculation p f d hb hm env = Inr lb"
  shows "0 < f \<and> 0 < d \<and> (env \<noteq> ''free_space'' \<longrightarrow> 0 < hb \<and> (0 < hm \<or> (150 \<le> f \<and> f \<le> 1500)))"
proof (cases "env = ''free_space''")
  case True
  with assms have "free_space_path_loss f d \<noteq> Inl ValueError"
    by (auto simp: link_budget_calculation_def Let_def split: sum.splits)
  with free_space_nonpos[of f d] have "\<not> (f \<le> 0 \<or> d \<le> 0)" by blast
  with True show ?thesis by auto
next
  case False
  with assms have "okumura_hata_path_loss f d hb hm env \<noteq> Inl ValueError"
    by (auto simp: link_budget_calculation_def Let_def split: sum.splits)
  with okumura_hata_nonpos[of f d hb hm env]
  have "\<not> (f \<le> 0 \<or> d \<le> 0 \<or> hb \<le> 0 \<or> (hm \<le> 0 \<and> \<not> (150 \<le> f \<and> f \<le> 1500)))"
    by blast
  then show ?thesis by auto
qed

lemma link_budget_defined:
  assumes "0 < f" "0 < d" "env \<noteq> ''free_space'' \<longrightarrow> 0 < hb \<and> (0 < hm \<or> (150 \<le> f \<and> f \<le> 1500))"
  shows "\<exists>lb. link_budget_calculation p f d hb hm env = Inr lb"
  using assms
  by (auto simp: link_budget_calculation_def Let_def free_space_pos okumura_hata_pos)

lemma link_budget_defined_elsewhere:
  assumes "link_budget_calculation p f d hb hm env = Inr lb" "0 < d'"
  shows "\<exists>lb'. link_budget_calculation p f d' hb hm env = Inr lb'"
  using link_budget_Inr_D[OF assms(1)] assms(2) by (intro link_budget_defined) auto

lemma cell_radius_loop_succeeds:
  assumes "\<And>d. 0 < d \<Longrightarrow> \<exists>lb. link_budget_calculation p f d hb hm env = Inr lb"
  shows "0 < lo \<Longrightarrow> \<exists>r. cell_radius_loop p f env hb hm lo hi = Inr r"
  using assms
proof (induction p f env hb hm lo hi rule: cell_radius_loop.induct)
  case (1 p f env hb hm lo hi)
  show ?case
  proof (cases "hi - lo > tolerance")
    case False
    then show ?thesis by simp
  next
    case True
    have t: "0 < tolerance" by (simp add: tolerance_def)
    with True "1.prems"(1) have "0 < (lo + hi) / 2" by simp
    from "1.prems"(2)[OF this] obtain lb
      where lb: "link_budget_calculation p f ((lo + hi) / 2) hb hm env = Inr lb" by blast
    define b where "b = (if lb_link_feasible lb then ((lo + hi) / 2, hi) else (lo, (lo + hi) / 2))"
    from lb have stb: "cell_radius_step p f env hb hm (lo, hi) = Inr b"
      by (simp add: cell_radius_step_def Let_def b_def)
    obtain lo' hi' where "b = (lo', hi')" by (cases b)
    with stb have st: "cell_radius_step p f env hb hm (lo, hi) = Inr (lo', hi')" by simp
    from cell_radius_step_cases[OF st] True t "1.prems"(1) have "0 < lo'" by auto
    from "1.IH"[OF True st refl this "1.prems"(2)] True st show ?thesis by simp
  qed
qed

lemma calculate_cell_radius_succeeds:
  assumes "0 < f" "env \<noteq> ''free_space'' \<longrightarrow> 0 < hb \<and> (0 < hm \<or> (150 \<le> f \<and> f \<le> 1500))"
  shows "\<exists>r. calculate_cell_radius p f env hb hm = Inr r"
  unfolding calculate_cell_radius_def
  by (rule cell_radius_loop_succeeds) (use assms link_budget_defined in auto)

lemma calculate_cell_radius_bracket:
  assumes "calculate_cell_radius p f env hb hm = Inr r"
  shows "0.1 \<le> r" "r \<le> 50" "r = 0.1 \<or> feasible_at p f env hb hm r"
    "\<exists>h. r \<le> h \<and> h \<le> 50 \<and> h - r \<le> 0.01 \<and> (h = 50 \<or> infeasible_at p f env hb hm h)"
  using cell_radius_loop_bracket[of p f env hb hm "0.1" 50 r] assms
  by (simp_all add: calculate_cell_radius_def tolerance_def)

lemma feasible_at_iff:
  "feasible_at p f env hb hm d \<longleftrightarrow>
     (\<exists>pl. (if env = ''free_space'' then free_space_path_loss f d
            else okumura_hata_path_loss f d hb hm env) = Inr pl
         \<and> 0 < tx_power_max p + 18 + 0 - pl - fade_margin p - interference_margin p
                 - body_loss p - rx_sensitivity p)"
  by (auto simp: feasible_at_def link_budget_calculation_def Let_def split: sum.splits)

lemma infeasible_at_iff:
  "infeasible_at p f env hb hm d \<longleftrightarrow>
     (\<exists>pl. (if env = ''free_space'' then free_space_path_loss f d
            else okumura_hata_path_loss f d hb hm env) = Inr pl
         \<and> \<not> 0 < tx_power_max p + 18 + 0 - pl - fade_margin p - interference_margin p
                 - body_loss p - rx_sensitivity p)"
  by (auto simp: infeasible_at_def link_budget_calculation_def Let_def split: sum.splits)

lemma log10_power: "log 10 ((10::real) ^ n) = real n"
  by (rule log_pow_cancel) simp_all

lemma log10_100: "log 10 100 = 2"
  using log10_power[of 2] by simp

lemma log10_1000: "log 10 1000 = 3"
  using log10_power[of 3] by simp

lemma log10_million: "log 10 1000000 = 6"
  using log10_power[of 6] by simp

lemma log10_ten_million: "log 10 10000000 = 7"
  using log10_power[of 7] by simp

lemma free_space_mono:
  assumes "free_space_path_loss f d2 = Inr b" "0 < d1" "d1 \<le> d2"
  shows "\<exists>a. free_space_path_loss f d1 = Inr a \<and> a \<le> b"
proof -
  from assms(1) have "free_space_path_loss f d2 \<noteq> Inl ValueError" by simp
  with free_space_nonpos[of f d2] have "\<not> (f \<le> 0 \<or> d2 \<le> 0)" by blast
  then have pos: "0 < f" "0 < d2" by auto
  from assms(2,3) have l: "log 10 d1 \<le> log 10 d2" by simp
  from assms(1) have "b = 32.45 + 20 * log 10 f + 20 * log 10 d2"
    by (simp add: free_space_pos[OF pos])
  with l show ?thesis by (simp add: free_space_pos[OF pos(1) assms(2)] del: log_le_cancel_iff)
qed

lemma okumura_hata_mono:
  assumes "okumura_hata_path_loss f d2 hb hm env = Inr b" "0 < d1" "d1 \<le> d2" "hb \<le> 1000000"
  shows "\<exists>a. okumura_hata_path_loss f d1 hb hm env = Inr a \<and> a \<le> b"
proof -
  from assms(1) have "okumura_hata_path_loss f d2 hb hm env \<noteq> Inl ValueError" by simp
  with okumura_hata_nonpos[of f d2 hb hm env]
  have "\<not> (f \<le> 0 \<or> d2 \<le> 0 \<or> hb \<le> 0 \<or> (hm \<le> 0 \<and> \<not> (150 \<le> f \<and> f \<le> 1500)))"
    by blast
  then have pos: "0 < f" "0 < d2" "0 < hb" "0 < hm \<or> (150 \<le> f \<and> f \<le> 1500)" by auto
  have "log 10 hb \<le> log 10 1000000"
    using pos(3) assms(4) by (subst log_le_cancel_iff) simp_all
  then have c: "0 \<le> 44.9 - 6.55 * log 10 hb" by (simp add: log10_million)
  from assms(2,3) have "log 10 d1 \<le> log 10 d2" by simp
  from mult_left_mono[OF this c]
  have "hata_urban f d1 hb hm \<le> hata_urban f d2 hb hm" by (simp add: hata_urban_def)
  with assms(1) show ?thesis
    by (simp add: okumura_hata_pos[OF pos(1) assms(2) pos(3,4)]
        okumura_hata_pos[OF pos(1,2,3,4)] split: if_splits)
qed

lemma feasibility_monotone_holds:
  assumes "env = ''free_space'' \<or> hb \<le> 1000000"
  shows "feasibility_monotone p f env hb hm"
  unfolding feasibility_monotone_def
proof (intro allI impI, elim conjE)
  fix d1 d2 :: real
  assume d: "0 < d1" "d1 \<le> d2" and "feasible_at p f env hb hm d2"
  then obtain b where b: "(if env = ''free_space'' then free_space_path_loss f d2
            else okumura_hata_path_loss f d2 hb hm env) = Inr b"
      "0 < tx_power_max p + 18 + 0 - b - fade_margin p - interference_margin p
                 - body_loss p - rx_sensitivity p"
    unfolding feasible_at_iff by blast
  have "\<exists>a. (if env = ''free_space'' then free_space_path_loss f d1
            else okumura_hata_path_loss f d1 hb hm env) = Inr a \<and> a \<le> b"
  proof (cases "env = ''free_space''")
    case True
    with b(1) free_space_mono[of f d2 b d1] d show ?thesis by simp
  next
    case False
    with b(1) okumura_hata_mono[of f d2 hb hm env b d1] d assms show ?thesis by simp
  qed
  then obtain a where a: "(if env = ''free_space'' then free_space_path_loss f d1
            else okumura_hata_path_loss f d1 hb hm env) = Inr a" "a \<le> b" by blast
  with b(2) show "feasible_at p f env hb hm d1"
    unfolding feasible_at_iff by (intro exI[of _ a]) simp
qed

lemma log10_900: "log 10 900 < 3"
proof -
  have "log 10 900 < log 10 1000" by (subst log_less_cancel_iff) simp_all
  then show ?thesis by (simp only: log10_1000)
qed

lemma log10_tenth: "log 10 (1 / 10) = - 1"
  by (simp add: log_divide)

lemma GSM_900_free_space_feasible:
  assumes "0 < d" "d < 100"
  shows "feasible_at GSM_params 900 ''free_space'' hb hm d"
proof -
  have "log 10 d < log 10 100" using assms by (subst log_less_cancel_iff) simp_all
  then have "log 10 d < 2" by (simp only: log10_100)
  with log10_900 assms show ?thesis
    by (simp add: feasible_at_iff free_space_pos GSM_params_def)
qed

lemma GSM_10THz_free_space_infeasible:
  assumes "1 / 10 \<le> d"
  shows "infeasible_at GSM_params 10000000 ''free_space'' hb hm d"
proof -
  have "log 10 (1 / 10) \<le> log 10 d" using assms by (subst log_le_cancel_iff) simp_all
  then have "- 1 \<le> log 10 d" by (simp only: log10_tenth)
  with assms show ?thesis
    by (simp add: infeasible_at_iff free_space_pos GSM_params_def log10_ten_million)
qed

lemma GSM_900_free_space_radius:
  "calculate_cell_radius GSM_params 900 ''free_space'' 30 1.5 = Inr (50 - 499 / 81920)"
  by (simp add: calculate_cell_radius_def cell_radius_loop.simps tolerance_def
      cell_radius_step_feasible GSM_900_free_space_feasible)

lemma GSM_10THz_free_space_radius:
  "calculate_cell_radius GSM_params 10000000 ''free_space'' 30 1.5 = Inr 0.1"
  by (simp add: calculate_cell_radius_def cell_radius_loop.simps tolerance_def
      cell_radius_step_infeasible GSM_10THz_free_space_infeasible)



text \<open>
  C2, as the code has it. The radius returned is the lower end of the bracket: it lies
  between 0.1 and 50, and it is either the initial lower bound 0.1, which the search never
  evaluates, or a midpoint at which the link budget was evaluated and found feasible; it
  is never a midpoint found infeasible. Whenever feasibility is monotone, the link budget
  at the radius plus 0.02 is infeasible unless the upper end never moved, in which case
  the radius is at least 49.99.
\<close>

theorem cell_radius_lower_bracket:
  assumes "calculate_cell_radius p f env hb hm = Inr r"
  shows "0.1 \<le> r \<and> r \<le> 50
       \<and> (r = 0.1 \<or> feasible_at p f env hb hm r)
       \<and> (feasibility_monotone p f env hb hm \<longrightarrow>
            49.99 \<le> r \<or> infeasible_at p f env hb hm (r + 0.02))"
proof (intro conjI impI)
  note b = calculate_cell_radius_bracket[OF assms]
  show "0.1 \<le> r" "r \<le> 50" "r = 0.1 \<or> feasible_at p f env hb hm r" by (rule b)+
  assume mono: "feasibility_monotone p f env hb hm"
  from b(4) obtain h where h: "r \<le> h" "h \<le> 50" "h - r \<le> 0.01"
    "h = 50 \<or> infeasible_at p f env hb hm h" by blast
  show "49.99 \<le> r \<or> infeasible_at p f env hb hm (r + 0.02)"
  proof (cases "h = 50")
    case True
    with h(3) show ?thesis by simp
  next
    case False
    with h(4) have inf: "infeasible_at p f env hb hm h" by simp
    then obtain lb where lb: "link_budget_calculation p f h hb hm env = Inr lb"
      "\<not> lb_link_feasible lb"
      by (auto simp: infeasible_at_def split: sum.splits)
    from b(1) h(1) have hpos: "0 < h" by simp
    from b(1) have "0 < r + 0.02" by simp
    from link_budget_defined_elsewhere[OF lb(1) this] obtain lb'
      where lb': "link_budget_calculation p f (r + 0.02) hb hm env = Inr lb'" by blast
    have "\<not> feasible_at p f env hb hm (r + 0.02)"
    proof
      assume "feasible_at p f env hb hm (r + 0.02)"
      moreover from h(3) have "h \<le> r + 0.02" by simp
      ultimately have "feasible_at p f env hb hm h"
        using mono hpos unfolding feasibility_monotone_def by blast
      with lb show False by (simp add: feasible_at_def)
    qed
    with lb' have "infeasible_at p f env hb hm (r + 0.02)"
      by (simp add: feasible_at_def infeasible_at_def)
    then show ?thesis ..
  qed
qed

text \<open>The reference scenario: LTE at 1800 MHz, urban, antennas at 30 m and 1.5 m.\<close>

theorem cell_radius_lower_bracket_witness:
  "\<exists>r. calculate_cell_radius LTE_params 1800 ''urban'' 30 1.5 = Inr r
     \<and> 0.1 \<le> r \<and> r \<le> 50
     \<and> (r = 0.1 \<or> feasible_at LTE_params 1800 ''urban'' 30 1.5 r)
     \<and> (49.99 \<le> r \<or> infeasible_at LTE_params 1800 ''urban'' 30 1.5 (r + 0.02))"
proof -
  obtain r where r: "calculate_cell_radius LTE_params 1800 ''urban'' 30 1.5 = Inr r"
    using calculate_cell_radius_succeeds[of 1800 "''urban''" 30 "1.5" LTE_params] by auto
  have "feasibility_monotone LTE_params 1800 ''urban'' 30 1.5"
    by (rule feasibility_monotone_holds) simp
  with cell_radius_lower_bracket[OF r] r show ?thesis by blast
qed

text \<open>
  C2 as stated fails at both ends of the initial bracket, with a monotone feasibility.
  GSM at 900 MHz in free space is feasible at every tested distance: the radius returned
  is \<open>50 - 499/81920\<close> and the link is still feasible 0.02 km further. GSM at \<open>10\<^sup>7\<close> MHz
  in free space is infeasible at every tested distance: the radius returned is the initial
  0.1, where the link is infeasible.
\<close>

theorem cell_radius_edges_counterexample:
  "feasibility_monotone GSM_params 900 ''free_space'' 30 1.5
 \<and> calculate_cell_radius GSM_params 900 ''free_space'' 30 1.5 = Inr (50 - 499 / 81920)
 \<and> feasible_at GSM_params 900 ''free_space'' 30 1.5 (50 - 499 / 81920 + 0.02)
 \<and> feasibility_monotone GSM_params 10000000 ''free_space'' 30 1.5
 \<and> calculate_cell_radius GSM_params 10000000 ''free_space'' 30 1.5 = Inr 0.1
 \<and> infeasible_at GSM_params 10000000 ''free_space'' 30 1.5 0.1"
proof (intro conjI)
  show "feasibility_monotone GSM_params 900 ''free_space'' 30 1.5"
    by (rule feasibility_monotone_holds) simp
  show "calculate_cell_radius GSM_params 900 ''free_space'' 30 1.5 = Inr (50 - 499 / 81920)"
    by (rule GSM_900_free_space_radius)
  show "feasible_at GSM_params 900 ''free_space'' 30 1.5 (50 - 499 / 81920 + 0.02)"
    by (rule GSM_900_free_space_feasible) simp_all
  show "feasibility_monotone GSM_params 10000000 ''free_space'' 30 1.5"
    by (rule feasibility_monotone_holds) simp
  show "calculate_cell_radius GSM_params 10000000 ''free_space'' 30 1.5 = Inr 0.1"
    by (rule GSM_10THz_free_space_radius)
  show "infeasible_at GSM_params 10000000 ''free_space'' 30 1.5 0.1"
    by (rule GSM_10THz_free_space_infeasible) simp
qed

section \<open>Rounding to a double\<close>

lemma round_even_error: "\<bar>of_int (round_even y) - y\<bar> \<le> 1 / 2"
proof (cases "y - of_int \<lfloor>y\<rfloor> = 1 / 2")
  case True
  then have "round_even y = \<lfloor>y\<rfloor> \<or> round_even y = \<lfloor>y\<rfloor> + 1"
    by (simp add: round_even_def)
  then show ?thesis
  proof
    assume "round_even y = \<lfloor>y\<rfloor>"
    with True show ?thesis by simp
  next
    assume "round_even y = \<lfloor>y\<rfloor> + 1"
    with True show ?thesis by simp
  qed
next
  case False
  then have r: "round_even y = \<lfloor>y + 1 / 2\<rfloor>" by (simp add: round_even_def)
  have "of_int \<lfloor>y + 1 / 2\<rfloor> \<le> y + 1 / 2" "y + 1 / 2 < of_int \<lfloor>y + 1 / 2\<rfloor> + 1"
    by linarith+
  then show ?thesis unfolding r by linarith
qed

lemma round_even_near_int:
  assumes "of_int N \<le> y" "y < of_int N + 1 / 2"
  shows "round_even y = N"
proof -
  have f: "\<lfloor>y\<rfloor> = N" using assms by linarith
  have "\<lfloor>y + 1 / 2\<rfloor> = N" using assms by linarith
  moreover have "y - of_int \<lfloor>y\<rfloor> \<noteq> 1 / 2" using assms f by simp
  ultimately show ?thesis by (simp add: round_even_def)
qed

lemma float_round_lower:
  assumes "0 < x"
  shows "x * (1 - 1 / 2 ^ 53) \<le> float_round x"
proof -
  define e where "e = \<lfloor>log 2 x\<rfloor>"
  define u :: real where "u = 2 powr (of_int e - 52)"
  have upos: "0 < u" by (simp add: u_def)
  have "2 powr (of_int e) \<le> x"
    using assms floor_log_eq_powr_iff[of x 2 e] by (simp add: e_def)
  moreover have "u = 2 powr (of_int e) / 2 ^ 52"
    by (simp add: u_def powr_diff)
  ultimately have ux: "u \<le> x / 2 ^ 52" by (simp add: divide_right_mono)
  have fr: "float_round x = of_int (round_even (x / u)) * u"
    using assms by (simp add: float_round_def Let_def e_def u_def)
  have "\<bar>of_int (round_even (x / u)) - x / u\<bar> \<le> 1 / 2" by (rule round_even_error)
  then have "x / u - 1 / 2 \<le> of_int (round_even (x / u))" by linarith
  from mult_right_mono[OF this less_imp_le[OF upos]] upos
  have "x - u / 2 \<le> float_round x" by (simp add: fr left_diff_distrib)
  moreover have "u / 2 \<le> x / 2 ^ 53" using ux by simp
  ultimately have "x - x / 2 ^ 53 \<le> float_round x" by linarith
  then show ?thesis by (simp add: right_diff_distrib)
qed

lemma float_round_to_int:
  fixes n :: int and e :: nat
  assumes "e \<le> 52" "2 ^ e \<le> n" "n < 2 ^ (e + 1)"
    and "of_int n \<le> x" "x < of_int n + 1 / 2 ^ (53 - e)"
  shows "float_round x = of_int n"
proof -
  have npos: "0 < n" using assms(2) by (smt (verit) zero_less_power)
  have xpos: "0 < x" using assms(4) npos by linarith
  have lo: "2 powr (of_int (int e)) \<le> x"
  proof -
    have "(2::real) ^ e \<le> of_int n" using assms(2) by (metis of_int_le_iff of_int_numeral of_int_power)
    with assms(4) have "(2::real) ^ e \<le> x" by linarith
    then show ?thesis by (simp add: powr_realpow)
  qed
  have hi: "x < 2 powr (of_int (int e + 1))"
  proof -
    have "n + 1 \<le> 2 ^ (e + 1)" using assms(3) by simp
    then have "of_int (n + 1) \<le> (2::real) ^ (e + 1)"
      by (metis of_int_le_iff of_int_numeral of_int_power)
    then have a: "of_int n + 1 \<le> (2::real) ^ (e + 1)" by simp
    have b: "(1::real) / 2 ^ (53 - e) \<le> 1" by (simp add: field_simps one_le_power)
    from a b assms(5) have "x < 2 ^ (e + 1)" by linarith
    then show ?thesis by (simp add: powr_realpow powr_add)
  qed
  have fl: "\<lfloor>log 2 \<bar>x\<bar>\<rfloor> = int e"
    using floor_log_eq_powr_iff[of x 2 "int e"] xpos lo hi by simp
  define u :: real where "u = 1 / 2 ^ (52 - e)"
  have u: "2 powr (of_int (int e) - 52) = u"
  proof -
    have "2 powr (of_int (int e) - 52) = 2 powr (- real (52 - e))"
      using assms(1) by (simp add: of_nat_diff)
    also have "\<dots> = u" by (simp add: u_def powr_minus powr_realpow field_simps)
    finally show ?thesis .
  qed
  have upos: "0 < u" by (simp add: u_def)
  define N :: int where "N = n * 2 ^ (52 - e)"
  have Nu: "of_int N * u = of_int n" by (simp add: N_def u_def)
  have xu: "x / u = x * 2 ^ (52 - e)" by (simp add: u_def)
  have "of_int N \<le> x / u"
    using assms(4) by (simp add: xu N_def mult_right_mono)
  moreover have "x / u < of_int N + 1 / 2"
  proof -
    have p: "(2::real) ^ (53 - e) = 2 * 2 ^ (52 - e)"
      using assms(1) by (simp add: Suc_diff_le flip: power_Suc)
    have "x * 2 ^ (52 - e) < (of_int n + 1 / 2 ^ (53 - e)) * 2 ^ (52 - e)"
      using assms(5) by (simp add: mult_strict_right_mono)
    also have "\<dots> = of_int N + 1 / 2" by (simp add: N_def p distrib_right)
    finally show ?thesis by (simp add: xu)
  qed
  ultimately have "round_even (x / u) = N" by (rule round_even_near_int)
  with xpos fl u Nu show ?thesis by (simp add: float_round_def Let_def)
qed

lemma sqrt3_bounds:
  "17320508075688772935274463 / 10 ^ 25 < sqrt 3"
  "sqrt 3 < 17320508075688772935274464 / 10 ^ 25"
  by (rule real_less_rsqrt, simp add: power2_eq_square)
     (rule real_less_lsqrt, simp_all add: power2_eq_square)

section \<open>The dimensioning result\<close>

text \<open>
  What a returned result says about the steps before it, when the division by the cell
  area raises, and the inputs on which a result is returned.
\<close>

lemma dimensioning_Inr_D:
  assumes "calculate_advanced_dimensioning s tech f env td q hb hm = Inr r"
  shows "\<exists>p. TELECOM_TECHNOLOGIES tech = Some p
          \<and> calculate_cell_radius p f env hb hm = Inr (dim_max_radius r)"
    and "dim_optimal_radius r = dim_max_radius r * (1 - 0.3 * min 1 (td / 100)) * (q / 100)"
    and "dim_cell_area r = (3 * sqrt 3 / 2) * (dim_optimal_radius r)\<^sup>2"
    and "dim_cell_area r \<noteq> 0"
    and "dim_num_cells r = \<lceil>float_round (s / dim_cell_area r)\<rceil>"
    and "tech = ''GSM'' \<Longrightarrow> dim_channels_per_cell r = min 8 (max 1 (py_int (td / 10)))"
    and "tech = ''GSM'' \<Longrightarrow> dim_capacity_per_cell r = of_int (dim_channels_per_cell r) * 0.9"
proof -
  obtain p where p: "TELECOM_TECHNOLOGIES tech = Some p"
    using assms by (cases "TELECOM_TECHNOLOGIES tech")
      (simp_all add: calculate_advanced_dimensioning_def)
  obtain mr where mr: "calculate_cell_radius p f env hb hm = Inr mr"
    using assms p by (cases "calculate_cell_radius p f env hb hm")
      (simp_all add: calculate_advanced_dimensioning_def)
  define opt where "opt = mr * (1 - 0.3 * min 1 (td / 100)) * (q / 100)"
  define area where "area = (3 * sqrt 3 / 2) * opt\<^sup>2"
  have area: "area \<noteq> 0"
  proof
    assume "area = 0"
    with assms p mr show False
      by (simp add: calculate_advanced_dimensioning_def Let_def area_def opt_def)
  qed
  obtain lb where lb: "link_budget_calculation p f opt hb hm env = Inr lb"
    using assms p mr area
    by (cases "link_budget_calculation p f opt hb hm env")
      (simp_all add: calculate_advanced_dimensioning_def Let_def area_def opt_def)
  from assms p mr area lb
  have sel: "dim_max_radius r = mr" "dim_optimal_radius r = opt" "dim_cell_area r = area"
    "dim_num_cells r = \<lceil>float_round (s / area)\<rceil>"
    "tech = ''GSM'' \<Longrightarrow> dim_channels_per_cell r = min 8 (max 1 (py_int (td / 10)))"
    "tech = ''GSM'' \<Longrightarrow> dim_capacity_per_cell r = of_int (min 8 (max 1 (py_int (td / 10)))) * 0.9"
    by (auto simp: calculate_advanced_dimensioning_def Let_def area_def opt_def)
  show "\<exists>p. TELECOM_TECHNOLOGIES tech = Some p
          \<and> calculate_cell_radius p f env hb hm = Inr (dim_max_radius r)"
    using p mr sel(1) by blast
  show "dim_optimal_radius r = dim_max_radius r * (1 - 0.3 * min 1 (td / 100)) * (q / 100)"
    by (simp only: sel opt_def)
  show "dim_cell_area r = (3 * sqrt 3 / 2) * (dim_optimal_radius r)\<^sup>2"
    by (simp only: sel area_def)
  show "dim_cell_area r \<noteq> 0" using area sel(3) by simp
  show "dim_num_cells r = \<lceil>float_round (s / dim_cell_area r)\<rceil>" by (simp only: sel)
  show "tech = ''GSM'' \<Longrightarrow> dim_channels_per_cell r = min 8 (max 1 (py_int (td / 10)))"
    by (rule sel(5))
  show "tech = ''GSM'' \<Longrightarrow> dim_capacity_per_cell r = of_int (dim_channels_per_cell r) * 0.9"
    using sel(5,6) by simp
qed

lemma dimensioning_zero_area:
  assumes "TELECOM_TECHNOLOGIES tech = Some p" "calculate_cell_radius p f env hb hm = Inr mr"
    "mr * (1 - 0.3 * min 1 (td / 100)) * (q / 100) = 0"
  shows "calculate_advanced_dimensioning s tech f env td q hb hm = Inl ZeroDivisionError"
  using assms by (simp add: calculate_advanced_dimensioning_def Let_def)

lemma dimensioning_succeeds:
  assumes "TELECOM_TECHNOLOGIES tech = Some p" "0 < f" "0 < hb" "0 < hm" "0 < q"
  shows "\<exists>r. calculate_advanced_dimensioning s tech f env td q hb hm = Inr r"
proof -
  from calculate_cell_radius_succeeds[of f env hb hm p] assms
  obtain mr where mr: "calculate_cell_radius p f env hb hm = Inr mr" by auto
  from calculate_cell_radius_bracket(1)[OF mr] have mrpos: "0 < mr" by simp
  define opt where "opt = mr * (1 - 0.3 * min 1 (td / 100)) * (q / 100)"
  have "0 < 1 - 0.3 * min 1 (td / 100)" by (simp add: min_def)
  with mrpos have "0 < mr * (1 - 0.3 * min 1 (td / 100))" by (rule mult_pos_pos)
  moreover from assms(5) have "0 < q / 100" by simp
  ultimately have opt: "0 < opt" unfolding opt_def by (rule mult_pos_pos)
  then have "0 < opt\<^sup>2" by simp
  moreover have "0 < 3 * sqrt 3 / 2" by simp
  ultimately have "0 < (3 * sqrt 3 / 2) * opt\<^sup>2" by (rule mult_pos_pos[rotated])
  then have area: "(3 * sqrt 3 / 2) * opt\<^sup>2 \<noteq> 0" by (rule less_imp_neq[symmetric])
  from link_budget_defined[of f opt env hb hm p] assms opt
  obtain lb where lb: "link_budget_calculation p f opt hb hm env = Inr lb" by auto
  have area': "((3 * sqrt 3 / 2) * (mr * (1 - 0.3 * min 1 (td / 100)) * (q / 100))\<^sup>2 = 0) = False"
    using area unfolding opt_def by blast
  have lb': "link_budget_calculation p f (mr * (1 - 0.3 * min 1 (td / 100)) * (q / 100))
      hb hm env = Inr lb"
    using lb unfolding opt_def .
  show ?thesis
    by (simp only: calculate_advanced_dimensioning_def Let_def assms(1) mr option.case
        sum.case area' if_False lb') blast
qed

lemma py_int_nonneg: "0 \<le> x \<Longrightarrow> py_int x = \<lfloor>x\<rfloor>"
  by (simp add: py_int_def)

text \<open>
  C5, as the code has it. Every result the dimensioning returns for a positive surface
  has \<open>cell_area = (3 \<surd>3 / 2) optimal_radius\<^sup>2\<close> and
  \<open>cell_count = ceil (q)\<close>, where \<open>q\<close> is the double nearest to
  \<open>surface_total / cell_area\<close>, the float quotient that the code hands to
  \<^verbatim>\<open>math.ceil\<close>. The cells cover the surface up to the rounding of that one division:
  \<open>cell_count * cell_area \<ge> surface_total * (1 - 2\<^sup>-\<^sup>5\<^sup>3)\<close>.
\<close>

theorem cells_cover_surface_up_to_rounding:
  assumes "calculate_advanced_dimensioning surface_total technology frequency environment
             traffic_demand qos_requirements hb hm = Inr r"
    and "0 < surface_total"
  shows "dim_cell_area r = (3 * sqrt 3 / 2) * (dim_optimal_radius r)\<^sup>2
       \<and> dim_num_cells r = \<lceil>float_round (surface_total / dim_cell_area r)\<rceil>
       \<and> of_int (dim_num_cells r) * dim_cell_area r \<ge> surface_total * (1 - 1 / 2 ^ 53)"
proof -
  note d = dimensioning_Inr_D[OF assms(1)]
  have "0 \<le> dim_cell_area r" by (simp add: d(3))
  with d(4) have pos: "0 < dim_cell_area r" by simp
  define x where "x = surface_total / dim_cell_area r"
  have xpos: "0 < x" using assms(2) pos by (simp add: x_def)
  have xa: "x * dim_cell_area r = surface_total" using pos by (simp add: x_def)
  have "x * (1 - 1 / 2 ^ 53) \<le> float_round x" using xpos by (rule float_round_lower)
  also have "float_round x \<le> of_int \<lceil>float_round x\<rceil>" by (rule le_of_int_ceiling)
  finally have "x * (1 - 1 / 2 ^ 53) \<le> of_int (dim_num_cells r)"
    by (simp only: d(5) x_def)
  from mult_right_mono[OF this less_imp_le[OF pos]]
  have "x * dim_cell_area r * (1 - 1 / 2 ^ 53) \<le> of_int (dim_num_cells r) * dim_cell_area r"
    by (simp only: mult.assoc mult.commute[of "dim_cell_area r"])
  then have "surface_total * (1 - 1 / 2 ^ 53) \<le> of_int (dim_num_cells r) * dim_cell_area r"
    by (simp only: xa)
  with d(3,5) show ?thesis by blast
qed

text \<open>The reference scenario: 100 square km, LTE at 1800 MHz, urban, traffic 50, QoS 90.\<close>

theorem cells_cover_surface_up_to_rounding_witness:
  "\<exists>r. calculate_advanced_dimensioning 100 ''LTE'' 1800 ''urban'' 50 90 30 1.5 = Inr r
     \<and> dim_num_cells r = \<lceil>float_round (100 / dim_cell_area r)\<rceil>
     \<and> of_int (dim_num_cells r) * dim_cell_area r \<ge> 100 * (1 - 1 / 2 ^ 53)"
proof -
  obtain r where r: "calculate_advanced_dimensioning 100 ''LTE'' 1800 ''urban'' 50 90 30 1.5 = Inr r"
    using dimensioning_succeeds[of "''LTE''" LTE_params 1800 30 "1.5" 90 100 "''urban''" 50]
    by (auto simp: lookup_Some)
  have "(0::real) < 100" by simp
  from cells_cover_surface_up_to_rounding[OF r this] r show ?thesis by blast
qed

text \<open>
  C5 as stated fails. For GSM at 900 MHz in free space, traffic 54 and QoS 64, the
  radius is \<open>50 - 499/81920\<close>, the optimal radius \<open>1716014919/64000000\<close> and the cell
  area about 1867.8. The surface \<open>8728162305194801 / 2\<^sup>3\<^sup>8\<close> (the double written
  \<^verbatim>\<open>31752.869491155438\<close>) divided by that area lies above 17 by less than \<open>2\<^sup>-\<^sup>4\<^sup>9\<close>, half
  the distance from 17 to the next double: the quotient rounds to 17, the cell count is
  17, and 17 cells are less than the surface.
\<close>

theorem cells_cover_surface_counterexample:
  "map_sum id dim_num_cells
     (calculate_advanced_dimensioning (8728162305194801 / 274877906944) ''GSM'' 900
        ''free_space'' 54 64 30 1.5) = Inr 17
 \<and> map_sum id dim_cell_area
     (calculate_advanced_dimensioning (8728162305194801 / 274877906944) ''GSM'' 900
        ''free_space'' 54 64 30 1.5) = Inr (3 * sqrt 3 / 2 * (1716014919 / 64000000)\<^sup>2)
 \<and> 17 * (3 * sqrt 3 / 2 * (1716014919 / 64000000)\<^sup>2) < 8728162305194801 / 274877906944"
proof -
  define S :: real where "S = 8728162305194801 / 274877906944"
  define c :: real where "c = 3 / 2 * (1716014919 / 64000000)\<^sup>2"
  have cpos: "0 < c" by (simp add: c_def)
  have area_eq: "3 * sqrt 3 / 2 * (1716014919 / 64000000)\<^sup>2 = c * sqrt 3"
    by (simp add: c_def)
  have apos: "0 < c * sqrt 3" using cpos by simp
  have "c * sqrt 3 < c * (17320508075688772935274464 / 10 ^ 25)"
    using sqrt3_bounds(2) cpos by (rule mult_strict_left_mono)
  moreover have "17 * (c * (17320508075688772935274464 / 10 ^ 25)) < S"
    by (simp add: c_def S_def power2_eq_square)
  ultimately have under: "17 * (c * sqrt 3) < S" by linarith
  have "c * (17320508075688772935274463 / 10 ^ 25) < c * sqrt 3"
    using sqrt3_bounds(1) cpos by (rule mult_strict_left_mono)
  moreover have "S < (17 + 1 / 2 ^ 49) * (c * (17320508075688772935274463 / 10 ^ 25))"
    by (simp add: c_def S_def power2_eq_square)
  ultimately have "S < (17 + 1 / 2 ^ 49) * (c * sqrt 3)"
    using mult_strict_left_mono[of "c * (17320508075688772935274463 / 10 ^ 25)" "c * sqrt 3"
        "17 + 1 / 2 ^ 49"] by simp
  then have q_hi: "S / (c * sqrt 3) < 17 + 1 / 2 ^ 49"
    using apos by (simp add: pos_divide_less_eq)
  have q_lo: "17 \<le> S / (c * sqrt 3)"
    using under apos by (simp add: pos_le_divide_eq)
  have fr: "float_round (S / (c * sqrt 3)) = of_int 17"
    by (rule float_round_to_int[where e = 4]) (use q_lo q_hi in simp_all)
  obtain r where r: "calculate_advanced_dimensioning S ''GSM'' 900 ''free_space'' 54 64 30 1.5
      = Inr r"
    using dimensioning_succeeds[of "''GSM''" GSM_params 900 30 "1.5" 64 S "''free_space''" 54]
    by (auto simp: lookup_Some)
  note d = dimensioning_Inr_D[OF r]
  from d(1) have "calculate_cell_radius GSM_params 900 ''free_space'' 30 1.5
      = Inr (dim_max_radius r)" by (auto simp: lookup_Some)
  then have mr: "dim_max_radius r = 50 - 499 / 81920"
    by (simp only: GSM_900_free_space_radius sum.inject)
  have opt: "dim_optimal_radius r = 1716014919 / 64000000"
    by (simp add: d(2) mr)
  have area: "dim_cell_area r = c * sqrt 3"
    by (simp only: d(3) opt area_eq)
  have "dim_num_cells r = \<lceil>float_round (S / (c * sqrt 3))\<rceil>" by (simp only: d(5) area)
  then have cells: "dim_num_cells r = 17" by (simp only: fr) simp
  show ?thesis
    unfolding S_def[symmetric] r map_sum.simps id_apply cells area area_eq
    using under by simp
qed

text \<open>
  C6. For a traffic demand of at least 0 and a QoS between 0 and 100, every result has
  \<open>optimal_radius \<le> max_radius\<close>, with
  \<open>optimal_radius = max_radius (1 - 0.3 min(1, traffic_demand/100)) (qos_requirements/100)\<close>.
\<close>

theorem optimal_radius_le_max:
  assumes "calculate_advanced_dimensioning surface_total technology frequency environment
             traffic_demand qos_requirements hb hm = Inr r"
    and "0 \<le> traffic_demand" "0 \<le> qos_requirements" "qos_requirements \<le> 100"
  shows "dim_optimal_radius r \<le> dim_max_radius r
       \<and> dim_optimal_radius r
           = dim_max_radius r * (1 - 0.3 * min 1 (traffic_demand / 100)) * (qos_requirements / 100)"
proof -
  note d = dimensioning_Inr_D[OF assms(1)]
  from d(1) obtain p where "calculate_cell_radius p frequency environment hb hm
      = Inr (dim_max_radius r)" by blast
  from calculate_cell_radius_bracket(1)[OF this] have mr: "0 \<le> dim_max_radius r" by simp
  have a: "0 \<le> 1 - 0.3 * min 1 (traffic_demand / 100)" by (simp add: min_def)
  have a1: "1 - 0.3 * min 1 (traffic_demand / 100) \<le> 1" using assms(2) by (simp add: min_def)
  have b: "0 \<le> qos_requirements / 100" "qos_requirements / 100 \<le> 1" using assms(3,4) by simp_all
  have "(1 - 0.3 * min 1 (traffic_demand / 100)) * (qos_requirements / 100) \<le> 1 * 1"
    by (rule mult_mono) (use a a1 b in simp_all)
  from mult_left_mono[OF this mr]
  have "dim_max_radius r * ((1 - 0.3 * min 1 (traffic_demand / 100)) * (qos_requirements / 100))
      \<le> dim_max_radius r" by simp
  with d(2) show ?thesis by (simp add: mult.assoc)
qed

text \<open>UMTS at 2100 MHz, suburban, 250 square km, traffic 80, QoS 95.\<close>

theorem optimal_radius_le_max_witness:
  "\<exists>r. calculate_advanced_dimensioning 250 ''UMTS'' 2100 ''suburban'' 80 95 30 1.5 = Inr r
     \<and> dim_optimal_radius r \<le> dim_max_radius r
     \<and> dim_optimal_radius r = dim_max_radius r * (1 - 0.3 * min 1 (80 / 100)) * (95 / 100)"
proof -
  obtain r
    where r: "calculate_advanced_dimensioning 250 ''UMTS'' 2100 ''suburban'' 80 95 30 1.5 = Inr r"
    using dimensioning_succeeds[of "''UMTS''" UMTS_params 2100 30 "1.5" 95 250 "''suburban''" 80]
    by (auto simp: lookup_Some)
  from optimal_radius_le_max[OF r] r show ?thesis by auto
qed

text \<open>
  C10. With a QoS of 0 the dimensioning never returns a result, whatever the other
  arguments are. When the lookup and the radius search succeed (they do for a technology
  of the table and positive frequency and antenna heights) the optimal radius and the
  cell area are 0 and the call fails with \<^verbatim>\<open>ZeroDivisionError\<close> at the cell count; an
  unknown technology or a radius search that raises ends the call earlier, with that
  error.
\<close>

theorem zero_qos_division_error:
  assumes "qos_requirements = 0"
  shows "(\<forall>r. calculate_advanced_dimensioning surface_total technology frequency environment
             traffic_demand qos_requirements hb hm \<noteq> Inr r)
       \<and> (\<forall>p mr. TELECOM_TECHNOLOGIES technology = Some p
             \<and> calculate_cell_radius p frequency environment hb hm = Inr mr \<longrightarrow>
           calculate_advanced_dimensioning surface_total technology frequency environment
             traffic_demand qos_requirements hb hm = Inl ZeroDivisionError)
       \<and> (technology \<in> {''GSM'', ''UMTS'', ''LTE''} \<and> 0 < frequency \<and> 0 < hb \<and> 0 < hm \<longrightarrow>
           calculate_advanced_dimensioning surface_total technology frequency environment
             traffic_demand qos_requirements hb hm = Inl ZeroDivisionError)"
proof (intro conjI allI impI)
  fix r
  show "calculate_advanced_dimensioning surface_total technology frequency environment
             traffic_demand qos_requirements hb hm \<noteq> Inr r"
  proof
    assume "calculate_advanced_dimensioning surface_total technology frequency environment
             traffic_demand qos_requirements hb hm = Inr r"
    from dimensioning_Inr_D(2,3,4)[OF this] assms show False by simp
  qed
next
  fix p mr
  assume "TELECOM_TECHNOLOGIES technology = Some p
             \<and> calculate_cell_radius p frequency environment hb hm = Inr mr"
  then show "calculate_advanced_dimensioning surface_total technology frequency environment
             traffic_demand qos_requirements hb hm = Inl ZeroDivisionError"
    using assms by (intro dimensioning_zero_area[of technology p _ _ _ _ mr]) simp_all
next
  assume a: "technology \<in> {''GSM'', ''UMTS'', ''LTE''} \<and> 0 < frequency \<and> 0 < hb \<and> 0 < hm"
  then obtain p where p: "TELECOM_TECHNOLOGIES technology = Some p"
    using lookup_None[of technology] by fastforce
  from calculate_cell_radius_succeeds[of frequency environment hb hm p] a
  obtain mr where "calculate_cell_radius p frequency environment hb hm = Inr mr" by auto
  with p show "calculate_advanced_dimensioning surface_total technology frequency environment
             traffic_demand qos_requirements hb hm = Inl ZeroDivisionError"
    using assms by (intro dimensioning_zero_area[of technology p _ _ _ _ mr]) simp_all
qed

text \<open>The reference scenario with a QoS of 0.\<close>

theorem zero_qos_division_error_witness:
  "calculate_advanced_dimensioning 100 ''LTE'' 1800 ''urban'' 50 0 30 1.5 = Inl ZeroDivisionError"
proof -
  obtain mr where "calculate_cell_radius LTE_params 1800 ''urban'' 30 1.5 = Inr mr"
    using calculate_cell_radius_succeeds[of 1800 "''urban''" 30 "1.5" LTE_params] by auto
  with zero_qos_division_error[of 0 100 "''LTE''" 1800 "''urban''" 50 30 "1.5"]
  show ?thesis by (simp add: lookup_Some)
qed

text \<open>
  C1, as the code has it. For a traffic demand between 0 and 100, the GSM branch sets
  the channels per cell to \<open>floor (traffic_demand / 10)\<close> clamped to the range from 1 to
  8 (\<^verbatim>\<open>int\<close> truncates, it does not round to the nearest integer), and the capacity
  per cell to the channels times 0.9.
\<close>

theorem gsm_channels_truncate:
  assumes "calculate_advanced_dimensioning surface_total ''GSM'' frequency environment
             traffic_demand qos_requirements hb hm = Inr r"
    and "0 \<le> traffic_demand" "traffic_demand \<le> 100"
  shows "dim_channels_per_cell r = min 8 (max 1 \<lfloor>traffic_demand / 10\<rfloor>)
       \<and> dim_capacity_per_cell r = of_int (dim_channels_per_cell r) * 0.9"
  using dimensioning_Inr_D(6,7)[OF assms(1)] assms(2) by (simp add: py_int_nonneg)

text \<open>A traffic demand of 37 gives 3 channels and a capacity of 2.7.\<close>

theorem gsm_channels_truncate_witness:
  "\<exists>r. calculate_advanced_dimensioning 100 ''GSM'' 900 ''urban'' 37 90 30 1.5 = Inr r
     \<and> dim_channels_per_cell r = 3 \<and> dim_capacity_per_cell r = 2.7"
proof -
  obtain r where r: "calculate_advanced_dimensioning 100 ''GSM'' 900 ''urban'' 37 90 30 1.5 = Inr r"
    using dimensioning_succeeds[of "''GSM''" GSM_params 900 30 "1.5" 90 100 "''urban''" 37]
    by (auto simp: lookup_Some)
  have "\<lfloor>37 / 10 :: real\<rfloor> = 3" by linarith
  with gsm_channels_truncate[OF r] r show ?thesis by auto
qed

text \<open>
  C1 as stated fails: a traffic demand of 19 gives 1 channel, where rounding 1.9 to the
  nearest integer gives 2.
\<close>

theorem gsm_channels_round_counterexample:
  "map_sum id dim_channels_per_cell
     (calculate_advanced_dimensioning 100 ''GSM'' 900 ''urban'' 19 90 30 1.5) = Inr 1
 \<and> min 8 (max 1 (round (19 / 10 :: real))) = 2"
proof -
  obtain r where r: "calculate_advanced_dimensioning 100 ''GSM'' 900 ''urban'' 19 90 30 1.5 = Inr r"
    using dimensioning_succeeds[of "''GSM''" GSM_params 900 30 "1.5" 90 100 "''urban''" 19]
    by (auto simp: lookup_Some)
  have f: "\<lfloor>19 / 10 :: real\<rfloor> = 1" by linarith
  have "round (19 / 10 :: real) = 2" unfolding round_def by linarith
  moreover from dimensioning_Inr_D(6)[OF r] have "dim_channels_per_cell r = 1"
    by (simp add: py_int_nonneg f)
  ultimately show ?thesis using r by simp
qed

end
